theory Spec2Isabelle
  imports Complex_Main "HOL-Library.Option_ord" "HOL-Library.Multiset"
begin

section \<open>The dataset\<close>

text \<open>
  One row of the table \<^verbatim>\<open>metadata_full\<close>. Every column may hold SQL NULL, which is
  \<open>None\<close>. The integer columns hold Python/SQLite integers, modelled as unbounded \<open>int\<close>
  (the 64-bit range of the store is outside this model). The date columns are only
  ever compared, so a date is an integer time stamp. The dataset is the list of rows in
  storage order.
\<close>

type_synonym timestamp = int

record story_record =
  rowid :: int
  Title :: "string option"
  Author :: "string option"
  Category :: "string option"
  Genre :: "string option"
  Language :: "string option"
  Status :: "string option"
  Rating :: "string option"
  word_count :: "int option"
  chapter_count :: "int option"
  Updated :: "timestamp option"
  Published :: "timestamp option"

type_synonym dataset = "story_record list"

datatype py_error = ValueError | ZeroDivisionError

section \<open>Python's \<^verbatim>\<open>int()\<close> and \<^verbatim>\<open>str.strip()\<close> on ASCII strings\<close>

definition py_isspace :: "char \<Rightarrow> bool" where
  "py_isspace c = (c \<in> set [CHR 0x09, CHR 0x0A, CHR 0x0B, CHR 0x0C, CHR 0x0D,
                              CHR 0x1C, CHR 0x1D, CHR 0x1E, CHR 0x1F, CHR '' ''])"

definition strip :: "string \<Rightarrow> string" where
  "strip s = rev (dropWhile py_isspace (rev (dropWhile py_isspace s)))"

definition digit_value :: "char \<Rightarrow> int option" where
  "digit_value c = map_of (zip ''0123456789'' [0, 1, 2, 3, 4, 5, 6, 7, 8, 9]) c"

text \<open>
  The digits of a decimal literal: single underscores may separate digits. The flag says
  whether the previous character was a digit.
\<close>

fun parse_digits :: "string \<Rightarrow> int \<Rightarrow> bool \<Rightarrow> int option" where
  "parse_digits [] acc prev = (if prev then Some acc else None)"
| "parse_digits (c # cs) acc prev =
     (if c = CHR ''_'' then (if prev \<and> cs \<noteq> [] then parse_digits cs acc False else None)
      else (case digit_value c of
              None \<Rightarrow> None
            | Some d \<Rightarrow> parse_digits cs (10 * acc + d) True))"

definition py_int :: "string \<Rightarrow> py_error + int" where
  "py_int s =
     (case strip s of
        [] \<Rightarrow> Inl ValueError
      | c # cs \<Rightarrow>
          (if c = CHR ''-'' then
             (case parse_digits cs 0 False of None \<Rightarrow> Inl ValueError | Some n \<Rightarrow> Inr (- n))
           else if c = CHR ''+'' then
             (case parse_digits cs 0 False of None \<Rightarrow> Inl ValueError | Some n \<Rightarrow> Inr n)
           else
             (case parse_digits (c # cs) 0 False of None \<Rightarrow> Inl ValueError | Some n \<Rightarrow> Inr n)))"

section \<open>The SQL fragment used by the queries\<close>

definition lower_char :: "char \<Rightarrow> char" where
  "lower_char c =
     (case map_of (zip ''ABCDEFGHIJKLMNOPQRSTUVWXYZ'' ''abcdefghijklmnopqrstuvwxyz'') c of
        Some l \<Rightarrow> l
      | None \<Rightarrow> c)"

text \<open>
  \<^verbatim>\<open>text LIKE pattern\<close>: \<^verbatim>\<open>%\<close> matches any run of characters, \<^verbatim>\<open>_\<close> any one
  character, and letters match without regard to ASCII case.
\<close>

fun sql_like :: "string \<Rightarrow> string \<Rightarrow> bool" where
  "sql_like [] s = (s = [])"
| "sql_like (p # ps) [] = (if p = CHR ''%'' then sql_like ps [] else False)"
| "sql_like (p # ps) (c # cs) =
     (if p = CHR ''%'' then sql_like ps (c # cs) \<or> sql_like (p # ps) cs
      else (p = CHR ''_'' \<or> lower_char p = lower_char c) \<and> sql_like ps cs)"

text \<open>
  \<^verbatim>\<open>LIMIT l OFFSET o\<close>: a negative offset counts as zero and a negative limit as no
  limit.
\<close>

definition sql_limit_offset :: "int \<Rightarrow> int \<Rightarrow> 'a list \<Rightarrow> 'a list" where
  "sql_limit_offset l off xs =
     (let ys = drop (nat off) xs in if l < 0 then ys else take (nat l) ys)"

text \<open>
  \<^verbatim>\<open>ORDER BY Updated DESC\<close>. NULL sorts below every value, so it comes last. The store
  leaves the order of rows with equal keys open; the model keeps them in storage order.
\<close>

definition order_by_updated_desc :: "dataset \<Rightarrow> dataset" where
  "order_by_updated_desc rows = rev (sort_key Updated (rev rows))"

section \<open>\<^verbatim>\<open>search_stories\<close>\<close>

datatype text_column =
  TitleCol | AuthorCol | CategoryCol | GenreCol | LanguageCol | StatusCol | RatingCol

fun column_text :: "text_column \<Rightarrow> story_record \<Rightarrow> string option" where
  "column_text TitleCol r = Title r"
| "column_text AuthorCol r = Author r"
| "column_text CategoryCol r = Category r"
| "column_text GenreCol r = Genre r"
| "column_text LanguageCol r = Language r"
| "column_text StatusCol r = Status r"
| "column_text RatingCol r = Rating r"

text \<open>One entry of \<^verbatim>\<open>where_conditions\<close> together with its bound parameter.\<close>

datatype condition =
  Like text_column string
| Equals text_column string
| WordCountGe int
| WordCountLe int

text \<open>A row passes \<^verbatim>\<open>WHERE\<close> when the condition is true; on a NULL column it is not.\<close>

fun condition_true :: "condition \<Rightarrow> story_record \<Rightarrow> bool" where
  "condition_true (Like col pat) r =
     (case column_text col r of None \<Rightarrow> False | Some v \<Rightarrow> sql_like pat v)"
| "condition_true (Equals col x) r = (column_text col r = Some x)"
| "condition_true (WordCountGe n) r =
     (case word_count r of None \<Rightarrow> False | Some w \<Rightarrow> n \<le> w)"
| "condition_true (WordCountLe n) r =
     (case word_count r of None \<Rightarrow> False | Some w \<Rightarrow> w \<le> n)"

definition where_true :: "condition list \<Rightarrow> story_record \<Rightarrow> bool" where
  "where_true conds r = list_all (\<lambda>c. condition_true c r) conds"

type_synonym query_params = "string \<rightharpoonup> string"

text \<open>\<^verbatim>\<open>if query_params.get(key):\<close> holds for a present, non-empty string.\<close>

definition get_truthy :: "query_params \<Rightarrow> string \<Rightarrow> string option" where
  "get_truthy q key = (case q key of None \<Rightarrow> None | Some v \<Rightarrow> if v = [] then None else Some v)"

definition like_clause :: "query_params \<Rightarrow> string \<Rightarrow> text_column \<Rightarrow> condition list" where
  "like_clause q key col =
     (case get_truthy q key of None \<Rightarrow> [] | Some v \<Rightarrow> [Like col (CHR ''%'' # v @ ''%'')])"

definition equals_clause :: "query_params \<Rightarrow> string \<Rightarrow> text_column \<Rightarrow> condition list" where
  "equals_clause q key col =
     (case get_truthy q key of None \<Rightarrow> [] | Some v \<Rightarrow> [Equals col v])"

definition number_clause ::
  "query_params \<Rightarrow> string \<Rightarrow> (int \<Rightarrow> condition) \<Rightarrow> py_error + condition list" where
  "number_clause q key mk =
     (case get_truthy q key of
        None \<Rightarrow> Inr []
      | Some v \<Rightarrow> (case py_int v of Inl e \<Rightarrow> Inl e | Inr n \<Rightarrow> Inr [mk n]))"

definition where_conditions :: "query_params \<Rightarrow> py_error + condition list" where
  "where_conditions q =
     (let cs = like_clause q ''title'' TitleCol @ like_clause q ''author'' AuthorCol
             @ like_clause q ''category'' CategoryCol @ like_clause q ''genre'' GenreCol
             @ equals_clause q ''language'' LanguageCol @ equals_clause q ''status'' StatusCol
             @ equals_clause q ''rating'' RatingCol
      in case number_clause q ''min_words'' WordCountGe of
           Inl e \<Rightarrow> Inl e
         | Inr lo \<Rightarrow>
             (case number_clause q ''max_words'' WordCountLe of
                Inl e \<Rightarrow> Inl e
              | Inr hi \<Rightarrow> Inr (cs @ lo @ hi)))"

text \<open>The columns selected by the search query, in the order of the \<^verbatim>\<open>SELECT\<close>.\<close>

type_synonym search_row =
  "string option \<times> string option \<times> string option \<times> string option \<times> string option
   \<times> string option \<times> int option \<times> int option \<times> string option \<times> timestamp option \<times> int"

definition search_columns :: "story_record \<Rightarrow> search_row" where
  "search_columns r =
     (Title r, Author r, Category r, Genre r, Language r, Status r,
      word_count r, chapter_count r, Rating r, Updated r, rowid r)"


fun row_id :: "search_row \<Rightarrow> int" where
  "row_id (t, a, c, g, l, s, w, ch, ra, u, i) = i"

definition search_stories ::
  "dataset \<Rightarrow> query_params \<Rightarrow> int \<Rightarrow> int \<Rightarrow> py_error + (search_row list \<times> int)" where
  "search_stories db q page per_page =
     (case where_conditions q of
        Inl e \<Rightarrow> Inl e
      | Inr conds \<Rightarrow>
          (let results = map search_columns
                 (sql_limit_offset per_page ((page - 1) * per_page)
                    (order_by_updated_desc (filter (where_true conds) db)));
               total_count = int (length (filter (where_true conds) db))
           in Inr (results, total_count)))"

section \<open>The search endpoints\<close>

text \<open>
  The arguments of a request are a dictionary of strings. Both endpoints catch every
  exception and answer with status 500.
\<close>

datatype 'a response = Success 'a | Http500

definition search_keys :: "string list" where
  "search_keys = [''title'', ''author'', ''category'', ''genre'', ''language'', ''status'',
                  ''rating'', ''min_words'', ''max_words'']"

text \<open>
  \<^verbatim>\<open>request.args.get(k, '').strip()\<close> for the nine keys, then the entries with an
  empty value are dropped.
\<close>

definition request_query_params :: "(string \<rightharpoonup> string) \<Rightarrow> query_params" where
  "request_query_params args k =
     (if k \<in> set search_keys then
        (let v = strip (case args k of None \<Rightarrow> [] | Some s \<Rightarrow> s)
         in if v = [] then None else Some v)
      else None)"

definition int_arg :: "(string \<rightharpoonup> string) \<Rightarrow> string \<Rightarrow> int \<Rightarrow> py_error + int" where
  "int_arg args k d = (case args k of None \<Rightarrow> Inr d | Some s \<Rightarrow> py_int s)"

record api_pagination =
  p_page :: int
  p_per_page :: int
  p_total_count :: int
  p_total_pages :: int

record pagination_info = api_pagination +
  has_prev :: bool
  has_next :: bool
  prev_num :: "int option"
  next_num :: "int option"

text \<open>\<^verbatim>\<open>(total_count + per_page - 1) // per_page\<close> of \<^verbatim>\<open>api_search\<close>.\<close>

definition total_pages :: "int \<Rightarrow> int \<Rightarrow> py_error + int" where
  "total_pages total_count per_page =
     (if per_page = 0 then Inl ZeroDivisionError
      else Inr ((total_count + per_page - 1) div per_page))"

text \<open>
  \<^verbatim>\<open>math.ceil(total_count / per_page)\<close> of the page endpoints; the quotient is taken as
  the exact fraction.
\<close>

definition ceil_pages :: "int \<Rightarrow> int \<Rightarrow> py_error + int" where
  "ceil_pages total_count per_page =
     (if per_page = 0 then Inl ZeroDivisionError
      else Inr \<lceil>(of_int total_count :: rat) / of_int per_page\<rceil>)"

definition api_search ::
  "dataset \<Rightarrow> (string \<rightharpoonup> string) \<Rightarrow> (search_row list \<times> api_pagination) response" where
  "api_search db args =
     (case int_arg args ''page'' 1 of
        Inl e \<Rightarrow> Http500
      | Inr page \<Rightarrow>
          (case int_arg args ''per_page'' 50 of
             Inl e \<Rightarrow> Http500
           | Inr requested \<Rightarrow>
               (let per_page = min requested 100 in
                case search_stories db (request_query_params args) page per_page of
                  Inl e \<Rightarrow> Http500
                | Inr (results, total_count) \<Rightarrow>
                    (case total_pages total_count per_page of
                       Inl e \<Rightarrow> Http500
                     | Inr n \<Rightarrow>
                         Success (results,
                           \<lparr>p_page = page, p_per_page = per_page,
                            p_total_count = total_count, p_total_pages = n\<rparr>)))))"

text \<open>
  The page endpoint \<^verbatim>\<open>search\<close> of \<^verbatim>\<open>routes.py\<close>; what it hands to the template is the
  result list and the pagination dictionary (\<open>None\<close> when no search was made).
\<close>

definition search ::
  "dataset \<Rightarrow> (string \<rightharpoonup> string) \<Rightarrow> (search_row list \<times> pagination_info option) response" where
  "search db args =
     (let query_params = request_query_params args in
      case int_arg args ''page'' 1 of
        Inl e \<Rightarrow> Http500
      | Inr page \<Rightarrow>
          (case int_arg args ''per_page'' 50 of
             Inl e \<Rightarrow> Http500
           | Inr per_page \<Rightarrow>
               (if list_ex (\<lambda>k. query_params k \<noteq> None) search_keys
                   \<or> get_truthy args ''show_all'' \<noteq> None
                then
                  (case search_stories db query_params page per_page of
                     Inl e \<Rightarrow> Http500
                   | Inr (results, total_count) \<Rightarrow>
                       (case ceil_pages total_count per_page of
                          Inl e \<Rightarrow> Http500
                        | Inr n \<Rightarrow>
                            Success (results,
                              Some \<lparr>p_page = page, p_per_page = per_page,
                                    p_total_count = total_count, p_total_pages = n,
                                    has_prev = (page > 1), has_next = (page < n),
                                    prev_num = (if page > 1 then Some (page - 1) else None),
                                    next_num = (if page < n then Some (page + 1) else None)\<rparr>)))
                else Success ([], None))))"

section \<open>Aggregate statistics\<close>

text \<open>
  \<^verbatim>\<open>SUM\<close> and \<^verbatim>\<open>AVG\<close> run over the values of a group one at a time and skip NULL; on a
  group without a non-NULL value both are NULL. The average is taken as the exact
  fraction.
\<close>

definition sum_step :: "int option \<Rightarrow> int option \<Rightarrow> int option" where
  "sum_step v acc =
     (case v of None \<Rightarrow> acc | Some x \<Rightarrow> Some ((case acc of None \<Rightarrow> 0 | Some a \<Rightarrow> a) + x))"

definition sql_sum :: "int option list \<Rightarrow> int option" where
  "sql_sum vs = fold sum_step vs None"

definition avg_step :: "int option \<Rightarrow> int \<times> nat \<Rightarrow> int \<times> nat" where
  "avg_step v acc = (case v of None \<Rightarrow> acc | Some x \<Rightarrow> (fst acc + x, Suc (snd acc)))"

definition sql_avg :: "int option list \<Rightarrow> rat option" where
  "sql_avg vs =
     (case fold avg_step vs (0, 0) of
        (s, n) \<Rightarrow> if n = 0 then None else Some (of_int s / of_nat n))"



text \<open>\<^verbatim>\<open>int(x)\<close> on a fraction rounds towards zero.\<close>

definition py_trunc :: "rat \<Rightarrow> int" where
  "py_trunc x = (if 0 \<le> x then \<lfloor>x\<rfloor> else \<lceil>x\<rceil>)"



text \<open>
  A row of \<^verbatim>\<open>get_top_authors\<close>: \<^verbatim>\<open>Author, story_count, avg_words, total_words\<close>.
  The groups are the distinct non-empty authors; \<^verbatim>\<open>ORDER BY story_count DESC\<close> keeps
  groups with equal counts in the order of their first row.
\<close>

type_synonym author_row = "string \<times> int \<times> rat option \<times> int option"

definition author_keys :: "dataset \<Rightarrow> string list" where
  "author_keys db =
     remdups (concat (map (\<lambda>r. case Author r of
                                  None \<Rightarrow> []
                                | Some a \<Rightarrow> if a = [] then [] else [a]) db))"

definition author_group :: "dataset \<Rightarrow> string \<Rightarrow> author_row" where
  "author_group db a =
     (let g = filter (\<lambda>r. Author r = Some a) db
      in (a, int (length g), sql_avg (map word_count g), sql_sum (map word_count g)))"

definition story_count :: "author_row \<Rightarrow> int" where
  "story_count row = fst (snd row)"

definition get_top_authors :: "dataset \<Rightarrow> int \<Rightarrow> author_row list" where
  "get_top_authors db limit =
     sql_limit_offset limit 0
       (rev (sort_key story_count (rev (map (author_group db) (author_keys db)))))"

text \<open>
  The entries of \<^verbatim>\<open>api_author_stats\<close>: name, story_count, avg_words, total_words, with
  \<^verbatim>\<open>int(x) if x else 0\<close> applied to the last two.
\<close>

type_synonym author_entry = "string \<times> int \<times> int \<times> int"

definition author_entry :: "author_row \<Rightarrow> author_entry" where
  "author_entry row =
     (case row of (a, n, av, tw) \<Rightarrow>
        (a, n,
         (case av of None \<Rightarrow> 0 | Some x \<Rightarrow> if x = 0 then 0 else py_trunc x),
         (case tw of None \<Rightarrow> 0 | Some t \<Rightarrow> t)))"

definition api_author_stats :: "dataset \<Rightarrow> (string \<rightharpoonup> string) \<Rightarrow> author_entry list response" where
  "api_author_stats db args =
     (case int_arg args ''limit'' 10 of
        Inl e \<Rightarrow> Http500
      | Inr limit \<Rightarrow> Success (map author_entry (get_top_authors db limit)))"

section \<open>The index store\<close>

text \<open>
  What the index manager sees of the database: the tables with their columns, and the
  rows of \<^verbatim>\<open>sqlite_master\<close> of type \<^verbatim>\<open>index\<close> (name of the index and name of its
  table), in the order of their creation. The store compares the names of tables,
  indexes and columns without regard to ASCII case, and an index name is known in the
  whole database, not per table.
\<close>

record index_row =
  idx_name :: string
  tbl_name :: string

record schema =
  tables :: "(string \<times> string list) list"
  index_rows :: "index_row list"

datatype sqlite_error =
  NoSuchTable string
| NoSuchColumn string
| TableNamed string
| SyntaxError string

definition same_name :: "string \<Rightarrow> string \<Rightarrow> bool" where
  "same_name a b = (map lower_char a = map lower_char b)"

definition find_table :: "schema \<Rightarrow> string \<Rightarrow> (string \<times> string list) option" where
  "find_table sch t = find (\<lambda>tc. same_name (fst tc) t) (tables sch)"

definition index_exists :: "schema \<Rightarrow> string \<Rightarrow> bool" where
  "index_exists sch n = list_ex (\<lambda>r. same_name (idx_name r) n) (index_rows sch)"

text \<open>
  \<^verbatim>\<open>CREATE INDEX IF NOT EXISTS i ON t(columns) [WHERE ...]\<close>, reduced to the names it
  mentions: the collation, the direction and the predicate of a partial index do not
  decide whether the index comes to exist.
\<close>

record create_index =
  stmt_index :: string
  stmt_table :: string
  stmt_columns :: "string list"

text \<open>
  The checks of the store, in its order: the table must exist, no table may bear the
  name of the index, an index of that name (on any table) makes the statement do
  nothing, and otherwise every column named must be one of the table.
\<close>

definition execute_create_index :: "schema \<Rightarrow> create_index \<Rightarrow> sqlite_error + schema" where
  "execute_create_index sch stmt =
     (case find_table sch (stmt_table stmt) of
        None \<Rightarrow> Inl (NoSuchTable (stmt_table stmt))
      | Some tc \<Rightarrow>
          (if find_table sch (stmt_index stmt) \<noteq> None then Inl (TableNamed (stmt_index stmt))
           else if index_exists sch (stmt_index stmt) then Inr sch
           else (case find (\<lambda>c. \<not> list_ex (same_name c) (snd tc)) (stmt_columns stmt) of
                   Some c \<Rightarrow> Inl (NoSuchColumn c)
                 | None \<Rightarrow>
                     Inr (sch\<lparr>index_rows := index_rows sch
                                @ [\<lparr>idx_name = stmt_index stmt, tbl_name = fst tc\<rparr>]\<rparr>))))"

text \<open>\<^verbatim>\<open>ANALYZE t\<close> fails when \<open>t\<close> names neither a table nor an index.\<close>

definition execute_analyze :: "schema \<Rightarrow> string \<Rightarrow> sqlite_error + unit" where
  "execute_analyze sch t =
     (if find_table sch t \<noteq> None \<or> index_exists sch t then Inr () else Inl (NoSuchTable t))"

text \<open>
  \<^verbatim>\<open>DROP INDEX IF EXISTS <text>\<close>, where the text is pasted into the statement unquoted.
  The text is read as the name of one index when it is a plain identifier: an ASCII
  letter or underscore, followed by letters, digits, underscores and dollar signs. Any
  other text is taken to make the statement fail; reserved words and names outside
  ASCII are not modelled.
\<close>

definition ident_start :: "char \<Rightarrow> bool" where
  "ident_start c =
     (c \<in> set ''abcdefghijklmnopqrstuvwxyzABCDEFGHIJKLMNOPQRSTUVWXYZ_'')"

definition ident_char :: "char \<Rightarrow> bool" where
  "ident_char c = (ident_start c \<or> c \<in> set ''0123456789$'')"

definition bare_identifier :: "string \<Rightarrow> bool" where
  "bare_identifier s = (case s of [] \<Rightarrow> False | c # cs \<Rightarrow> ident_start c \<and> list_all ident_char cs)"

definition execute_drop_index :: "schema \<Rightarrow> string \<Rightarrow> sqlite_error + schema" where
  "execute_drop_index sch n =
     (if bare_identifier n
      then Inr (sch\<lparr>index_rows := filter (\<lambda>r. \<not> same_name (idx_name r) n) (index_rows sch)\<rparr>)
      else Inl (SyntaxError n))"

section \<open>\<^verbatim>\<open>DatabaseIndexer\<close>\<close>

record index_config =
  name :: string
  sql :: create_index
  description :: string

text \<open>The catalog \<^verbatim>\<open>self.indexes\<close>.\<close>

definition indexes :: "index_config list" where
  "indexes =
    [
     \<lparr>name = ''idx_author'',
      sql = \<lparr>stmt_index = ''idx_author'', stmt_table = ''metadata_full'', stmt_columns = [''Author'']\<rparr>,
      description = ''Fast author searches and author pages''\<rparr>,
     \<lparr>name = ''idx_category'',
      sql = \<lparr>stmt_index = ''idx_category'', stmt_table = ''metadata_full'', stmt_columns = [''Category'']\<rparr>,
      description = ''Fast fandom/category searches''\<rparr>,
     \<lparr>name = ''idx_language'',
      sql = \<lparr>stmt_index = ''idx_language'', stmt_table = ''metadata_full'', stmt_columns = [''Language'']\<rparr>,
      description = ''Fast language filtering''\<rparr>,
     \<lparr>name = ''idx_status'',
      sql = \<lparr>stmt_index = ''idx_status'', stmt_table = ''metadata_full'', stmt_columns = [''Status'']\<rparr>,
      description = ''Fast completion status filtering''\<rparr>,
     \<lparr>name = ''idx_rating'',
      sql = \<lparr>stmt_index = ''idx_rating'', stmt_table = ''metadata_full'', stmt_columns = [''Rating'']\<rparr>,
      description = ''Fast rating filtering''\<rparr>,
     \<lparr>name = ''idx_word_count'',
      sql = \<lparr>stmt_index = ''idx_word_count'', stmt_table = ''metadata_full'', stmt_columns = [''word_count'']\<rparr>,
      description = ''Fast word count range searches''\<rparr>,
     \<lparr>name = ''idx_chapter_count'',
      sql = \<lparr>stmt_index = ''idx_chapter_count'', stmt_table = ''metadata_full'', stmt_columns = [''chapter_count'']\<rparr>,
      description = ''Fast chapter count filtering''\<rparr>,
     \<lparr>name = ''idx_updated'',
      sql = \<lparr>stmt_index = ''idx_updated'', stmt_table = ''metadata_full'', stmt_columns = [''Updated'']\<rparr>,
      description = ''Fast ordering by update date (newest first)''\<rparr>,
     \<lparr>name = ''idx_published'',
      sql = \<lparr>stmt_index = ''idx_published'', stmt_table = ''metadata_full'', stmt_columns = [''Published'']\<rparr>,
      description = ''Fast ordering by publication date''\<rparr>,
     \<lparr>name = ''idx_title_text'',
      sql = \<lparr>stmt_index = ''idx_title_text'', stmt_table = ''metadata_full'', stmt_columns = [''Title'']\<rparr>,
      description = ''Improved title searches (case insensitive)''\<rparr>,
     \<lparr>name = ''idx_genre_text'',
      sql = \<lparr>stmt_index = ''idx_genre_text'', stmt_table = ''metadata_full'', stmt_columns = [''Genre'']\<rparr>,
      description = ''Improved genre searches''\<rparr>,
     \<lparr>name = ''idx_category_status'',
      sql = \<lparr>stmt_index = ''idx_category_status'', stmt_table = ''metadata_full'', stmt_columns = [''Category'', ''Status'']\<rparr>,
      description = ''Fast fandom + completion status searches''\<rparr>,
     \<lparr>name = ''idx_author_updated'',
      sql = \<lparr>stmt_index = ''idx_author_updated'', stmt_table = ''metadata_full'', stmt_columns = [''Author'', ''Updated'']\<rparr>,
      description = ''Fast author searches ordered by recent updates''\<rparr>,
     \<lparr>name = ''idx_category_wordcount'',
      sql = \<lparr>stmt_index = ''idx_category_wordcount'', stmt_table = ''metadata_full'', stmt_columns = [''Category'', ''word_count'']\<rparr>,
      description = ''Fast fandom searches ordered by word count''\<rparr>,
     \<lparr>name = ''idx_language_status'',
      sql = \<lparr>stmt_index = ''idx_language_status'', stmt_table = ''metadata_full'', stmt_columns = [''Language'', ''Status'']\<rparr>,
      description = ''Fast language + status combination searches''\<rparr>,
     \<lparr>name = ''idx_rating_wordcount'',
      sql = \<lparr>stmt_index = ''idx_rating_wordcount'', stmt_table = ''metadata_full'', stmt_columns = [''Rating'', ''word_count'']\<rparr>,
      description = ''Fast rating + word count searches''\<rparr>,
     \<lparr>name = ''idx_author_count'',
      sql = \<lparr>stmt_index = ''idx_author_count'', stmt_table = ''metadata_full'', stmt_columns = [''Author'']\<rparr>,
      description = ''Fast author statistics and top author queries''\<rparr>,
     \<lparr>name = ''idx_category_count'',
      sql = \<lparr>stmt_index = ''idx_category_count'', stmt_table = ''metadata_full'', stmt_columns = [''Category'']\<rparr>,
      description = ''Fast fandom statistics and top fandom queries''\<rparr>,
     \<lparr>name = ''idx_search_filter'',
      sql = \<lparr>stmt_index = ''idx_search_filter'', stmt_table = ''metadata_full'', stmt_columns = [''Language'', ''Status'', ''Rating'', ''word_count'']\<rparr>,
      description = ''Optimized for multi-filter searches''\<rparr>
    ]"

definition check_existing_indexes :: "schema \<Rightarrow> string list" where
  "check_existing_indexes sch =
     map idx_name
       (filter (\<lambda>r. tbl_name r = ''metadata_full'' \<and> \<not> sql_like ''sqlite_%'' (idx_name r))
          (index_rows sch))"

text \<open>
  The result dictionaries. An entry of \<^verbatim>\<open>errors\<close> is the message built from the name of
  the index and the error; it is kept as that pair.
\<close>

record batch_result =
  errors :: "(string \<times> sqlite_error) list"

record create_result = batch_result +
  created :: "string list"
  skipped :: "string list"

record remove_result = batch_result +
  removed :: "string list"

text \<open>
  The loop of \<^verbatim>\<open>create_indexes\<close> over the catalog. The list of existing indexes is
  read once, before the loop.
\<close>

fun create_loop ::
  "bool \<Rightarrow> string list \<Rightarrow> index_config list \<Rightarrow> schema \<Rightarrow> create_result
     \<Rightarrow> schema \<times> create_result" where
  "create_loop force existing [] sch results = (sch, results)"
| "create_loop force existing (index_config # rest) sch results =
     (if name index_config \<in> set existing \<and> \<not> force then
        create_loop force existing rest sch
          (results\<lparr>skipped := skipped results @ [name index_config]\<rparr>)
      else
        (case execute_create_index sch (sql index_config) of
           Inr sch' \<Rightarrow>
             create_loop force existing rest sch'
               (results\<lparr>created := created results @ [name index_config]\<rparr>)
         | Inl e \<Rightarrow>
             create_loop force existing rest sch
               (results\<lparr>errors := errors results @ [(name index_config, e)]\<rparr>)))"

text \<open>
  \<^verbatim>\<open>create_indexes\<close> returns the store it leaves behind and either the result
  dictionary or the error of the final \<^verbatim>\<open>ANALYZE\<close>, which is outside the \<^verbatim>\<open>try\<close>.
\<close>

definition create_indexes :: "schema \<Rightarrow> bool \<Rightarrow> schema \<times> (sqlite_error + create_result)" where
  "create_indexes sch force =
     (let existing_indexes = check_existing_indexes sch;
          (sch', results) =
             create_loop force existing_indexes indexes sch
               \<lparr>errors = [], created = [], skipped = []\<rparr>
      in case execute_analyze sch' ''metadata_full'' of
           Inl e \<Rightarrow> (sch', Inl e)
         | Inr u \<Rightarrow> (sch', Inr results))"

fun remove_loop :: "string list \<Rightarrow> schema \<Rightarrow> remove_result \<Rightarrow> schema \<times> remove_result" where
  "remove_loop [] sch results = (sch, results)"
| "remove_loop (index_name # rest) sch results =
     (case execute_drop_index sch index_name of
        Inr sch' \<Rightarrow> remove_loop rest sch' (results\<lparr>removed := removed results @ [index_name]\<rparr>)
      | Inl e \<Rightarrow> remove_loop rest sch (results\<lparr>errors := errors results @ [(index_name, e)]\<rparr>))"

definition remove_indexes :: "schema \<Rightarrow> bool \<Rightarrow> schema \<times> remove_result" where
  "remove_indexes sch confirm =
     (if \<not> confirm then (sch, \<lparr>errors = [], removed = []\<rparr>)
      else
        (let existing_indexes = check_existing_indexes sch in
         if existing_indexes = [] then (sch, \<lparr>errors = [], removed = []\<rparr>)
         else remove_loop existing_indexes sch \<lparr>errors = [], removed = []\<rparr>))"

section \<open>Notions used in the statements\<close>

text \<open>The non-NULL values of a column, in order.\<close>

fun present :: "int option list \<Rightarrow> int list" where
  "present [] = []"
| "present (None # vs) = present vs"
| "present (Some w # vs) = w # present vs"

text \<open>The word counts present among the records of an author.\<close>

definition author_word_counts :: "dataset \<Rightarrow> string \<Rightarrow> int list" where
  "author_word_counts db a = present (map word_count (filter (\<lambda>r. Author r = Some a) db))"


text \<open>The rows of page \<open>p\<close>, and the pages 1 to \<open>n\<close> one after the other.\<close>

definition page_results :: "dataset \<Rightarrow> query_params \<Rightarrow> int \<Rightarrow> nat \<Rightarrow> search_row list" where
  "page_results db q per_page p =
     (case search_stories db q (int p) per_page of Inl e \<Rightarrow> [] | Inr res \<Rightarrow> fst res)"

definition all_pages :: "dataset \<Rightarrow> query_params \<Rightarrow> int \<Rightarrow> nat \<Rightarrow> search_row list" where
  "all_pages db q per_page n = concat (map (page_results db q per_page) [1..<Suc n])"

text \<open>
  A store on which the catalog can be created and found again: the table
  \<^verbatim>\<open>metadata_full\<close> exists under exactly that name with every column the catalog names,
  no table bears the name of a catalog index, and an index whose name is that of a
  catalog entry up to the case of its letters is spelled as in the catalog and is an
  index of \<^verbatim>\<open>metadata_full\<close>.
\<close>

definition table_ready :: "schema \<Rightarrow> bool" where
  "table_ready sch =
     (case find_table sch ''metadata_full'' of
        None \<Rightarrow> False
      | Some tc \<Rightarrow>
          fst tc = ''metadata_full'' \<and>
          list_all (\<lambda>cfg. list_all (\<lambda>c. list_ex (same_name c) (snd tc)) (stmt_columns (sql cfg)))
            indexes)"

definition names_free :: "schema \<Rightarrow> bool" where
  "names_free sch = list_all (\<lambda>cfg. find_table sch (name cfg) = None) indexes"

definition names_exact :: "schema \<Rightarrow> bool" where
  "names_exact sch =
     list_all (\<lambda>r. list_all (\<lambda>cfg. same_name (idx_name r) (name cfg) \<longrightarrow>
                        idx_name r = name cfg \<and> tbl_name r = ''metadata_full'') indexes)
       (index_rows sch)"

definition catalog_ready :: "schema \<Rightarrow> bool" where
  "catalog_ready sch = (table_ready sch \<and> names_free sch \<and> names_exact sch)"

section \<open>Example data\<close>

definition story ::
  "int \<Rightarrow> string option \<Rightarrow> int option \<Rightarrow> timestamp option \<Rightarrow> story_record" where
  "story i a w u =
     \<lparr>rowid = i, Title = None, Author = a, Category = None, Genre = None, Language = None,
      Status = None, Rating = None, word_count = w, chapter_count = None, Updated = u,
      Published = None\<rparr>"

definition two_stories :: dataset where
  "two_stories =
     [story 1 (Some ''Jane'') (Some 1000) (Some 20), story 2 (Some ''Jane'') (Some 0) (Some 30)]"

definition three_stories :: dataset where
  "three_stories =
     [story 1 (Some ''Jane'') (Some 1000) (Some 20), story 2 (Some ''Jane'') None (Some 30),
      story 3 (Some []) (Some 500) None]"

definition numbered_stories :: "int \<Rightarrow> dataset" where
  "numbered_stories n = map (\<lambda>i. story i None None None) [1..n]"

definition dataset_columns :: "string list" where
  "dataset_columns =
     [''Title'', ''Author'', ''Category'', ''Genre'', ''Language'', ''Status'', ''Rating'',
      ''word_count'', ''chapter_count'', ''Updated'', ''Published'']"

definition dataset_schema :: "index_row list \<Rightarrow> schema" where
  "dataset_schema rows = \<lparr>tables = [(''metadata_full'', dataset_columns)], index_rows = rows\<rparr>"


definition shadowed_index :: schema where
  "shadowed_index = dataset_schema [\<lparr>idx_name = ''IDX_AUTHOR'', tbl_name = ''metadata_full''\<rparr>]"


section \<open>Facts about the example data\<close>

lemma story_sel:
  "rowid (story i a w u) = i" "Author (story i a w u) = a"
  "word_count (story i a w u) = w" "Updated (story i a w u) = u"
  by (simp_all add: story_def)

lemma search_columns_story:
  "search_columns (story i a w u) = (None, a, None, None, None, None, w, None, None, u, i)"
  by (simp add: search_columns_def story_def)

section \<open>Parsing the bounds\<close>

lemma py_int_error: "py_int s = Inl e \<Longrightarrow> e = ValueError"
  by (auto simp: py_int_def split: list.splits if_splits option.splits)


lemma py_int_examples:
  "py_int ''2'' = Inr 2" "py_int ''6'' = Inr 6" "py_int ''100'' = Inr 100" "py_int ''500'' = Inr 500"
  by (simp_all add: py_int_def strip_def py_isspace_def digit_value_def)

text \<open>
  \<^verbatim>\<open>int()\<close> rejects every string that holds a character which is neither white space,
  a sign, an underscore nor a digit.
\<close>

lemma in_set_dropWhile:
  "x \<in> set xs \<Longrightarrow> \<not> P x \<Longrightarrow> x \<in> set (dropWhile P xs)"
  by (induction xs) auto

lemma in_set_strip:
  assumes "c \<in> set s" and "\<not> py_isspace c"
  shows "c \<in> set (strip s)"
proof -
  from assms have "c \<in> set (rev (dropWhile py_isspace s))"
    by (simp add: in_set_dropWhile)
  from this assms(2) have "c \<in> set (dropWhile py_isspace (rev (dropWhile py_isspace s)))"
    by (rule in_set_dropWhile)
  then show ?thesis by (simp add: strip_def)
qed

lemma digit_value_Some: "digit_value c = Some d \<Longrightarrow> c \<in> set ''0123456789''"
  by (auto simp: digit_value_def split: if_splits)

lemma parse_digits_chars:
  "parse_digits cs acc prev = Some n \<Longrightarrow> c \<in> set cs \<Longrightarrow> c \<in> set ''_0123456789''"
proof (induction cs acc prev rule: parse_digits.induct)
  case (1 acc prev)
  then show ?case by simp
next
  case (2 d cs acc prev)
  show ?case
  proof (cases "d = CHR ''_''")
    case True
    with 2 show ?thesis by (auto split: if_splits)
  next
    case False
    with "2.prems"(1) obtain v where v: "digit_value d = Some v"
      and rest: "parse_digits cs (10 * acc + v) True = Some n"
      by (auto split: option.splits)
    from digit_value_Some[OF v] have "d \<in> set ''_0123456789''" by auto
    moreover have "c \<in> set ''_0123456789''" if "c \<in> set cs"
      using "2.IH"(2)[OF False v rest that] .
    ultimately show ?thesis using "2.prems"(2) by auto
  qed
qed

lemma py_int_rejects:
  assumes "c \<in> set s" and "\<not> py_isspace c" and "c \<notin> set ''+-_0123456789''"
  shows "py_int s = Inl ValueError"
proof (cases "py_int s")
  case (Inl e)
  then show ?thesis
    by (auto simp: py_int_def split: list.splits if_splits option.splits)
next
  case (Inr n)
  from assms(1,2) have mem: "c \<in> set (strip s)" by (rule in_set_strip)
  then obtain d cs where s: "strip s = d # cs" by (cases "strip s") auto
  have "c \<in> set ''_0123456789''"
  proof (cases "d = CHR ''-'' \<or> d = CHR ''+''")
    case True
    with assms(3) mem s have "c \<in> set cs" by auto
    moreover from True Inr s obtain m where "parse_digits cs 0 False = Some m"
      by (auto simp: py_int_def split: option.splits if_splits)
    ultimately show ?thesis by (rule parse_digits_chars[rotated])
  next
    case False
    with Inr s obtain m where p: "parse_digits (d # cs) 0 False = Some m"
      by (auto simp: py_int_def split: option.splits if_splits)
    from mem s have "c \<in> set (d # cs)" by simp
    with p show ?thesis by (rule parse_digits_chars)
  qed
  with assms(3) show ?thesis by auto
qed


lemma number_clause_malformed:
  "q k = Some v \<Longrightarrow> v \<noteq> [] \<Longrightarrow> py_int v = Inl e \<Longrightarrow> number_clause q k mk = Inl ValueError"
  using py_int_error[of v e] by (simp add: number_clause_def get_truthy_def)


lemma where_conditions_empty: "where_conditions Map.empty = Inr []"
  by (simp add: where_conditions_def like_clause_def equals_clause_def number_clause_def
      get_truthy_def)

lemma where_true_Nil: "filter (where_true []) db = db"
  by (simp add: where_true_def)

lemma search_stories_all:
  "search_stories db Map.empty page per_page =
     Inr (map search_columns
            (sql_limit_offset per_page ((page - 1) * per_page) (order_by_updated_desc db)),
          int (length db))"
  by (simp add: search_stories_def where_conditions_empty where_true_Nil)

lemma search_stories_Inr:
  "where_conditions q = Inr conds \<Longrightarrow>
   search_stories db q page per_page =
     Inr (map search_columns
            (sql_limit_offset per_page ((page - 1) * per_page)
               (order_by_updated_desc (filter (where_true conds) db))),
          int (length (filter (where_true conds) db)))"
  by (simp add: search_stories_def)

lemma search_stories_Inl:
  "where_conditions q = Inl e \<Longrightarrow> search_stories db q page per_page = Inl e"
  by (simp add: search_stories_def)




lemma mset_order_by_updated_desc: "mset (order_by_updated_desc xs) = mset xs"
  by (simp add: order_by_updated_desc_def)


lemma row_id_search_columns: "row_id (search_columns r) = rowid r"
  by (simp add: search_columns_def)

section \<open>Malformed bounds\<close>



text \<open>
  Both endpoints turn the error into status 500; neither answers with an empty page.
\<close>

lemma where_conditions_min_words:
  assumes "q ''min_words'' = Some v" and "v \<noteq> []" and "py_int v = Inl e"
  shows "where_conditions q = Inl ValueError"
proof -
  from assms have "number_clause q ''min_words'' WordCountGe = Inl ValueError"
    by (rule number_clause_malformed)
  then show ?thesis by (simp add: where_conditions_def)
qed

lemma api_search_malformed:
  assumes "request_query_params args ''min_words'' = Some v" and "py_int v = Inl e"
  shows "api_search db args = Http500"
proof -
  from assms(1) have "v \<noteq> []"
    by (auto simp: request_query_params_def Let_def split: if_splits)
  with assms have "where_conditions (request_query_params args) = Inl ValueError"
    by (intro where_conditions_min_words)
  then have "search_stories db (request_query_params args) page per_page = Inl ValueError"
    for page per_page
    by (rule search_stories_Inl)
  then show ?thesis
    by (simp add: api_search_def Let_def split: sum.splits)
qed

lemma search_malformed:
  assumes "request_query_params args ''min_words'' = Some v" and "py_int v = Inl e"
  shows "search db args = Http500"
proof -
  from assms(1) have "v \<noteq> []"
    by (auto simp: request_query_params_def Let_def split: if_splits)
  with assms have "where_conditions (request_query_params args) = Inl ValueError"
    by (intro where_conditions_min_words)
  then have "search_stories db (request_query_params args) page per_page = Inl ValueError"
    for page per_page
    by (rule search_stories_Inl)
  moreover have "list_ex (\<lambda>k. request_query_params args k \<noteq> None) search_keys"
    using assms(1) by (auto simp: list_ex_iff search_keys_def)
  ultimately show ?thesis
    by (simp add: search_def Let_def split: sum.splits)
qed

section \<open>Page numbers below one\<close>


lemma order_two_stories:
  "order_by_updated_desc two_stories =
     [story 2 (Some ''Jane'') (Some 0) (Some 30), story 1 (Some ''Jane'') (Some 1000) (Some 20)]"
  by (simp add: order_by_updated_desc_def two_stories_def story_sel)

lemma length_two_stories: "length two_stories = 2"
  by (simp add: two_stories_def)




section \<open>The word-count range\<close>



section \<open>Pagination\<close>

lemma concat_pages:
  "concat (map (\<lambda>p. take k (drop ((p - 1) * k) xs)) [1..<Suc n]) = take (n * k) xs"
proof (induction n)
  case 0
  then show ?case by simp
next
  case (Suc n)
  have "take (n * k) xs @ take k (drop (n * k) xs) = take (n * k + k) xs"
    by (simp add: take_add)
  with Suc show ?case by (simp add: add.commute)
qed

lemma page_offset:
  assumes "1 \<le> per_page" and "1 \<le> p"
  shows "nat ((int p - 1) * per_page) = (p - 1) * nat per_page"
proof -
  have "nat ((int p - 1) * per_page) = nat (int p - 1) * nat per_page"
    using assms by (simp add: nat_mult_distrib)
  then show ?thesis by (simp add: nat_diff_distrib')
qed

lemma page_results_window:
  assumes "where_conditions q = Inr conds" and "1 \<le> per_page" and "1 \<le> p"
  shows "page_results db q per_page p =
     take (nat per_page) (drop ((p - 1) * nat per_page)
       (map search_columns (order_by_updated_desc (filter (where_true conds) db))))"
  using assms(2)
  by (simp add: page_results_def search_stories_Inr[OF assms(1)] sql_limit_offset_def
      page_offset[OF assms(2,3)] take_map drop_map)

lemma all_pages_take:
  assumes "where_conditions q = Inr conds" and "1 \<le> per_page"
  shows "all_pages db q per_page n =
     take (n * nat per_page)
       (map search_columns (order_by_updated_desc (filter (where_true conds) db)))"
proof -
  have "page_results db q per_page p =
      take (nat per_page) (drop ((p - 1) * nat per_page)
        (map search_columns (order_by_updated_desc (filter (where_true conds) db))))"
    if "p \<in> set [1..<Suc n]" for p
    using that by (intro page_results_window[OF assms]) auto
  then have "map (page_results db q per_page) [1..<Suc n] =
      map (\<lambda>p. take (nat per_page) (drop ((p - 1) * nat per_page)
        (map search_columns (order_by_updated_desc (filter (where_true conds) db))))) [1..<Suc n]"
    by (intro map_cong[OF refl])
  then show ?thesis
    by (simp only: all_pages_def concat_pages)
qed

lemma pages_cover:
  assumes "1 \<le> k" and "0 \<le> l"
  shows "nat l \<le> nat ((l + k - 1) div k) * nat k"
proof -
  have "(l + k - 1) div k * k = (l + k - 1) - (l + k - 1) mod k"
    by (simp add: minus_mod_eq_div_mult)
  moreover have "(l + k - 1) mod k \<le> k - 1"
    using assms(1) pos_mod_bound[of k "l + k - 1"] by simp
  ultimately have le: "l \<le> (l + k - 1) div k * k" by simp
  have "0 \<le> (l + k - 1) div k"
    using assms by (simp add: pos_imp_zdiv_nonneg_iff)
  then have "nat ((l + k - 1) div k) * nat k = nat ((l + k - 1) div k * k)"
    by (simp add: nat_mult_distrib)
  with le show ?thesis by simp
qed

lemma distinct_results:
  assumes "distinct (map rowid db)"
  shows "distinct (map row_id (map search_columns (order_by_updated_desc (filter P db))))"
proof -
  have "mset (map rowid (order_by_updated_desc (filter P db))) = mset (map rowid (filter P db))"
    by (simp add: mset_order_by_updated_desc)
  moreover have "distinct (map rowid (filter P db))"
    using assms by (rule distinct_map_filter)
  ultimately have "distinct (map rowid (order_by_updated_desc (filter P db)))"
    by (metis mset_eq_imp_distinct_iff)
  then show ?thesis
    by (simp add: comp_def row_id_search_columns)
qed

text \<open>
  Claim C5. For a page size of at least one and criteria on which the search succeeds,
  the total count is the number of rows of the dataset that pass the criteria, whatever
  the page, and the pages 1 to \<^verbatim>\<open>total_pages\<close> one after the other hold as many rows as
  the total count, are exactly the rows that pass the criteria, each as often as it is in
  the dataset, and repeat no row identifier when the dataset repeats none.
\<close>

theorem pagination_consistency:
  assumes "1 \<le> per_page"
    and "search_stories db q page per_page = Inr (rows, total_count)"
    and "total_pages total_count per_page = Inr n"
  shows "\<exists>conds. where_conditions q = Inr conds \<and>
           total_count = int (length (filter (where_true conds) db)) \<and>
           int (length (all_pages db q per_page (nat n))) = total_count \<and>
           mset (all_pages db q per_page (nat n))
             = mset (map search_columns (filter (where_true conds) db)) \<and>
           (distinct (map rowid db) \<longrightarrow> distinct (map row_id (all_pages db q per_page (nat n))))"
proof -
  from assms(2) obtain conds where wc: "where_conditions q = Inr conds"
    by (cases "where_conditions q") (simp_all add: search_stories_Inl)
  let ?all = "map search_columns (order_by_updated_desc (filter (where_true conds) db))"
  have total: "total_count = int (length (filter (where_true conds) db))"
    using assms(2) by (simp add: search_stories_Inr[OF wc])
  have len: "length ?all = nat total_count"
    by (simp add: total order_by_updated_desc_def)
  have n: "n = (total_count + per_page - 1) div per_page"
    using assms(1,3) by (simp add: total_pages_def)
  have "nat total_count \<le> nat n * nat per_page"
    unfolding n using assms(1) by (intro pages_cover) (simp_all add: total)
  then have "length ?all \<le> nat n * nat per_page"
    by (simp only: len)
  then have "take (nat n * nat per_page) ?all = ?all"
    by (rule take_all)
  then have pages: "all_pages db q per_page (nat n) = ?all"
    by (simp only: all_pages_take[OF wc assms(1)])
  have "mset ?all = mset (map search_columns (filter (where_true conds) db))"
    by (simp add: mset_order_by_updated_desc)
  moreover have "distinct (map row_id ?all)" if "distinct (map rowid db)"
    using that by (rule distinct_results)
  moreover have "int (length ?all) = total_count"
    by (simp add: total order_by_updated_desc_def)
  ultimately show ?thesis
    using wc total pages by auto
qed

text \<open>
  The two example stories, one story a page.
\<close>

theorem pagination_consistency_witness:
  "(1::int) \<le> 1 \<and>
   search_stories two_stories Map.empty 1 1
     = Inr ([search_columns (story 2 (Some ''Jane'') (Some 0) (Some 30))], 2) \<and>
   total_pages 2 1 = Inr 2 \<and>
   int (length (all_pages two_stories Map.empty 1 2)) = 2 \<and>
   distinct (map row_id (all_pages two_stories Map.empty 1 2))"
proof -
  have s: "search_stories two_stories Map.empty 1 1
      = Inr ([search_columns (story 2 (Some ''Jane'') (Some 0) (Some 30))], 2)"
    by (simp add: search_stories_all sql_limit_offset_def order_two_stories length_two_stories)
  have t: "total_pages 2 1 = Inr 2"
    by (simp add: total_pages_def)
  have d: "distinct (map rowid two_stories)"
    by (simp add: two_stories_def story_sel)
  from pagination_consistency[OF _ s t]
  have "int (length (all_pages two_stories Map.empty 1 (nat 2))) = 2 \<and>
      (distinct (map rowid two_stories) \<longrightarrow>
        distinct (map row_id (all_pages two_stories Map.empty 1 (nat 2))))"
    by auto
  with s t d show ?thesis by simp
qed

section \<open>The page size at the endpoints\<close>

lemma request_query_params_none:
  assumes "list_all (\<lambda>k. args k = None) search_keys"
  shows "request_query_params args = Map.empty"
proof
  fix k
  show "request_query_params args k = None"
  proof (cases "k \<in> set search_keys")
    case True
    with assms have "args k = None" by (simp add: list_all_iff)
    then show ?thesis by (simp add: request_query_params_def strip_def)
  next
    case False
    then show ?thesis by (simp add: request_query_params_def)
  qed
qed

lemma search_show_all:
  assumes "list_all (\<lambda>k. args k = None) search_keys" and "args ''page'' = None"
    and "args ''per_page'' = Some s" and "py_int s = Inr k" and "k \<noteq> 0"
    and "args ''show_all'' = Some v" and "v \<noteq> []"
  shows "\<exists>p. search db args
           = Success (map search_columns (sql_limit_offset k 0 (order_by_updated_desc db)), p)"
  using assms(2-)
  by (simp add: search_def request_query_params_none[OF assms(1)] int_arg_def get_truthy_def
      search_stories_all ceil_pages_def list_ex_iff)

lemma length_numbered_stories: "0 \<le> n \<Longrightarrow> length (numbered_stories n) = nat n"
  by (simp add: numbered_stories_def)

text \<open>
  Claim C2 at the page endpoint \<^verbatim>\<open>search\<close> of \<^verbatim>\<open>routes.py\<close>. On a dataset of 101
  stories, \<^verbatim>\<open>show_all=1&per_page=500\<close> returns 101 rows and \<^verbatim>\<open>per_page=100\<close> returns
  100: the page size is handed to \<^verbatim>\<open>search_stories\<close> as it came.
\<close>

theorem search_per_page_unclamped:
  "(\<exists>rows p. search (numbered_stories 101) [''show_all'' \<mapsto> ''1'', ''per_page'' \<mapsto> ''500'']
       = Success (rows, p) \<and> length rows = 101) \<and>
   (\<exists>rows p. search (numbered_stories 101) [''show_all'' \<mapsto> ''1'', ''per_page'' \<mapsto> ''100'']
       = Success (rows, p) \<and> length rows = 100)"
proof -
  have len: "length (order_by_updated_desc (numbered_stories 101)) = 101"
    by (simp add: order_by_updated_desc_def length_numbered_stories)
  have "\<exists>p. search (numbered_stories 101) [''show_all'' \<mapsto> ''1'', ''per_page'' \<mapsto> ''500'']
      = Success (map search_columns
          (sql_limit_offset 500 0 (order_by_updated_desc (numbered_stories 101))), p)"
    by (rule search_show_all[where s = "''500''" and v = "''1''"])
      (simp_all add: search_keys_def py_int_examples)
  moreover have "\<exists>p. search (numbered_stories 101) [''show_all'' \<mapsto> ''1'', ''per_page'' \<mapsto> ''100'']
      = Success (map search_columns
          (sql_limit_offset 100 0 (order_by_updated_desc (numbered_stories 101))), p)"
    by (rule search_show_all[where s = "''100''" and v = "''1''"])
      (simp_all add: search_keys_def py_int_examples)
  moreover have "length (map search_columns
      (sql_limit_offset 500 0 (order_by_updated_desc (numbered_stories 101)))) = 101"
    by (simp add: sql_limit_offset_def len)
  moreover have "length (map search_columns
      (sql_limit_offset 100 0 (order_by_updated_desc (numbered_stories 101)))) = 100"
    by (simp add: sql_limit_offset_def len)
  ultimately show ?thesis by blast
qed

text \<open>
  The JSON endpoint \<^verbatim>\<open>api_search\<close> does limit the page size to 100.
\<close>

lemma api_search_clamps:
  assumes "args ''per_page'' = Some s" and "py_int s = Inr k" and "100 < k"
  shows "api_search db args = api_search db (args(''per_page'' \<mapsto> ''100''))"
proof -
  have q: "request_query_params (args(''per_page'' \<mapsto> ''100'')) = request_query_params args"
    by (rule ext) (simp add: request_query_params_def search_keys_def)
  have "int_arg (args(''per_page'' \<mapsto> ''100'')) ''page'' 1 = int_arg args ''page'' 1"
    by (simp add: int_arg_def)
  moreover have "int_arg args ''per_page'' 50 = Inr k"
    using assms by (simp add: int_arg_def)
  moreover have "int_arg (args(''per_page'' \<mapsto> ''100'')) ''per_page'' 50 = Inr 100"
    by (simp add: int_arg_def py_int_examples)
  moreover have "min k 100 = 100" "min (100::int) 100 = 100"
    using assms(3) by simp_all
  ultimately show ?thesis
    by (simp only: api_search_def q sum.case Let_def)
qed

section \<open>The aggregates\<close>

lemma fold_sum_step:
  "fold sum_step vs acc =
     (if present vs = [] then acc
      else Some ((case acc of None \<Rightarrow> 0 | Some a \<Rightarrow> a) + sum_list (present vs)))"
proof (induction vs arbitrary: acc)
  case Nil
  then show ?case by simp
next
  case (Cons v vs)
  then show ?case by (cases v) (simp_all add: sum_step_def)
qed

lemma sql_sum_present:
  "sql_sum vs = (if present vs = [] then None else Some (sum_list (present vs)))"
  by (simp add: sql_sum_def fold_sum_step)

lemma fold_avg_step:
  "fold avg_step vs acc = (fst acc + sum_list (present vs), snd acc + length (present vs))"
proof (induction vs arbitrary: acc)
  case Nil
  then show ?case by simp
next
  case (Cons v vs)
  then show ?case by (cases v) (simp_all add: avg_step_def)
qed

lemma sql_avg_present:
  "sql_avg vs =
     (if present vs = [] then None
      else Some (of_int (sum_list (present vs)) / of_nat (length (present vs))))"
  by (simp add: sql_avg_def fold_avg_step)





section \<open>Basic statistics\<close>



section \<open>Top authors\<close>



lemma author_group_aggregates:
  "author_group db a =
     (a, int (length (filter (\<lambda>r. Author r = Some a) db)),
      (if author_word_counts db a = [] then None
       else Some (of_int (sum_list (author_word_counts db a))
                    / of_nat (length (author_word_counts db a)))),
      (if author_word_counts db a = [] then None
       else Some (sum_list (author_word_counts db a))))"
  by (simp add: author_group_def Let_def sql_avg_present sql_sum_present author_word_counts_def)



lemma author_keys_three: "author_keys three_stories = [''Jane'']"
  by (simp add: author_keys_def three_stories_def story_sel)


lemma author_word_counts_three: "author_word_counts three_stories ''Jane'' = [1000]"
  by (simp add: author_word_counts_def three_stories_def story_sel)


lemma author_count_three: "length (filter (\<lambda>r. Author r = Some ''Jane'') three_stories) = 2"
  by (simp add: three_stories_def story_sel)

lemma get_top_authors_three:
  "get_top_authors three_stories 10 = [(''Jane'', 2, Some 1000, Some 1000)]"
  by (simp add: get_top_authors_def author_keys_three author_group_aggregates
      author_word_counts_three author_count_three sql_limit_offset_def)



text \<open>
  The same scenario at the JSON endpoint.
\<close>

lemma api_author_stats_three:
  "api_author_stats three_stories Map.empty = Success [(''Jane'', 2, 1000, 1000)]"
  by (simp add: api_author_stats_def int_arg_def get_top_authors_three author_entry_def
      py_trunc_def)

section \<open>The index store\<close>


lemma find_table_index_rows: "find_table (sch\<lparr>index_rows := rows\<rparr>) t = find_table sch t"
  by (simp add: find_table_def)

lemma index_row_eq:
  "idx_name r = n \<Longrightarrow> tbl_name r = t \<Longrightarrow> r = \<lparr>idx_name = n, tbl_name = t\<rparr>"
  by (cases r) simp

lemma check_existing_indexes_rows:
  "n \<in> set (check_existing_indexes sch) \<longleftrightarrow>
     \<lparr>idx_name = n, tbl_name = ''metadata_full''\<rparr> \<in> set (index_rows sch) \<and> \<not> sql_like ''sqlite_%'' n"
proof
  assume "n \<in> set (check_existing_indexes sch)"
  then obtain r where r: "r \<in> set (index_rows sch)" and t: "tbl_name r = ''metadata_full''"
    and l: "\<not> sql_like ''sqlite_%'' (idx_name r)" and n: "idx_name r = n"
    unfolding check_existing_indexes_def by fastforce
  from n t have eq: "r = \<lparr>idx_name = n, tbl_name = ''metadata_full''\<rparr>"
    by (rule index_row_eq)
  from r have "\<lparr>idx_name = n, tbl_name = ''metadata_full''\<rparr> \<in> set (index_rows sch)"
    by (subst (asm) eq)
  moreover from l have "\<not> sql_like ''sqlite_%'' n"
    unfolding n .
  ultimately show "\<lparr>idx_name = n, tbl_name = ''metadata_full''\<rparr> \<in> set (index_rows sch)
      \<and> \<not> sql_like ''sqlite_%'' n" ..
next
  assume a: "\<lparr>idx_name = n, tbl_name = ''metadata_full''\<rparr> \<in> set (index_rows sch)
      \<and> \<not> sql_like ''sqlite_%'' n"
  let ?r = "\<lparr>idx_name = n, tbl_name = ''metadata_full''\<rparr>"
  have "idx_name ?r = n" "tbl_name ?r = ''metadata_full''" by simp_all
  with a have "?r \<in> set (filter (\<lambda>r. tbl_name r = ''metadata_full''
      \<and> \<not> sql_like ''sqlite_%'' (idx_name r)) (index_rows sch))"
    by (simp only: set_filter mem_Collect_eq simp_thms)
  then have "idx_name ?r \<in> set (check_existing_indexes sch)"
    unfolding check_existing_indexes_def set_map by (rule imageI)
  then show "n \<in> set (check_existing_indexes sch)" by simp
qed

section \<open>Dropping the indexes\<close>







text \<open>
  Claim C8. Without the confirmation flag \<^verbatim>\<open>remove_indexes\<close> leaves the store as it
  is, whatever indexes it holds, and reports an empty \<^verbatim>\<open>removed\<close> list and no errors.
\<close>

theorem remove_indexes_unconfirmed:
  "remove_indexes sch False = (sch, \<lparr>errors = [], removed = []\<rparr>)"
  by (simp add: remove_indexes_def)

section \<open>Creating the indexes\<close>

lemma catalog_statements:
  "list_all (\<lambda>cfg. stmt_index (sql cfg) = name cfg \<and> stmt_table (sql cfg) = ''metadata_full'') indexes"
  by (simp add: indexes_def)

lemma catalog_lower:
  "list_all (\<lambda>cfg. map lower_char (name cfg) = name cfg) indexes"
  by (simp add: indexes_def lower_char_def)

lemma catalog_not_internal:
  "list_all (\<lambda>cfg. \<not> sql_like ''sqlite_%'' (name cfg)) indexes"
  by (simp add: indexes_def lower_char_def)

lemma catalog_same_name:
  assumes "cfg \<in> set indexes" and "cfg' \<in> set indexes"
    and "same_name (name cfg) (name cfg')"
  shows "name cfg = name cfg'"
proof -
  from assms(1,2) catalog_lower have "map lower_char (name cfg) = name cfg"
    and "map lower_char (name cfg') = name cfg'"
    by (simp_all add: list_all_iff)
  with assms(3) show ?thesis by (simp add: same_name_def)
qed

lemma catalog_ready_index_rows:
  assumes "catalog_ready sch" and "names_exact (sch\<lparr>index_rows := rows\<rparr>)"
  shows "catalog_ready (sch\<lparr>index_rows := rows\<rparr>)"
  using assms
  by (simp add: catalog_ready_def table_ready_def names_free_def find_table_index_rows)

lemma create_step:
  assumes ready: "catalog_ready sch" and mem: "cfg \<in> set indexes"
  shows "\<exists>sch'. execute_create_index sch (sql cfg) = Inr sch' \<and> catalog_ready sch' \<and>
           set (index_rows sch) \<subseteq> set (index_rows sch') \<and>
           \<lparr>idx_name = name cfg, tbl_name = ''metadata_full''\<rparr> \<in> set (index_rows sch')"
proof -
  let ?row = "\<lparr>idx_name = name cfg, tbl_name = ''metadata_full''\<rparr>"
  from mem catalog_statements have si: "stmt_index (sql cfg) = name cfg"
    and st: "stmt_table (sql cfg) = ''metadata_full''"
    by (simp_all add: list_all_iff)
  from ready obtain tc where ft: "find_table sch ''metadata_full'' = Some tc"
    and tn: "fst tc = ''metadata_full''"
    and cols: "list_all (\<lambda>cfg. list_all (\<lambda>c. list_ex (same_name c) (snd tc))
                 (stmt_columns (sql cfg))) indexes"
    by (auto simp: catalog_ready_def table_ready_def split: option.splits)
  from ready mem have free: "find_table sch (name cfg) = None"
    by (simp add: catalog_ready_def names_free_def list_all_iff)
  from ready have exact: "names_exact sch"
    by (simp add: catalog_ready_def)
  from cols mem have "list_all (\<lambda>c. list_ex (same_name c) (snd tc)) (stmt_columns (sql cfg))"
    by (simp add: list_all_iff)
  then have nocol: "find (\<lambda>c. \<not> list_ex (same_name c) (snd tc)) (stmt_columns (sql cfg)) = None"
    by (simp add: find_None_iff list_all_iff)
  show ?thesis
  proof (cases "index_exists sch (name cfg)")
    case True
    then have run: "execute_create_index sch (sql cfg) = Inr sch"
      by (simp add: execute_create_index_def si st ft free)
    from True obtain r where r: "r \<in> set (index_rows sch)"
      and same: "same_name (idx_name r) (name cfg)"
      by (auto simp: index_exists_def list_ex_iff)
    with exact mem have "idx_name r = name cfg" "tbl_name r = ''metadata_full''"
      by (auto simp: names_exact_def list_all_iff)
    then have "r = ?row" by (rule index_row_eq)
    with r have "?row \<in> set (index_rows sch)" by simp
    with run ready show ?thesis by simp
  next
    case False
    let ?sch' = "sch\<lparr>index_rows := index_rows sch @ [?row]\<rparr>"
    from False have run: "execute_create_index sch (sql cfg) = Inr ?sch'"
      by (simp add: execute_create_index_def si st ft free nocol tn)
    have "same_name (name cfg) (name cfg') \<longrightarrow> name cfg = name cfg'"
      if "cfg' \<in> set indexes" for cfg'
      using catalog_same_name[OF mem that] by simp
    with exact have "names_exact ?sch'"
      by (simp add: names_exact_def list_all_iff)
    with ready have "catalog_ready ?sch'"
      by (rule catalog_ready_index_rows)
    with run show ?thesis by auto
  qed
qed

lemma create_loop_first:
  assumes "catalog_ready sch" and "set cat \<subseteq> set indexes"
    and "\<forall>n \<in> set existing. \<lparr>idx_name = n, tbl_name = ''metadata_full''\<rparr> \<in> set (index_rows sch)"
  shows "\<exists>sch' res'. create_loop False existing cat sch res = (sch', res') \<and>
           catalog_ready sch' \<and> errors res' = errors res \<and>
           set (index_rows sch) \<subseteq> set (index_rows sch') \<and>
           (\<forall>cfg \<in> set cat.
              \<lparr>idx_name = name cfg, tbl_name = ''metadata_full''\<rparr> \<in> set (index_rows sch'))"
  using assms
proof (induction cat arbitrary: sch res)
  case Nil
  then show ?case by simp
next
  case (Cons cfg cat)
  let ?row = "\<lparr>idx_name = name cfg, tbl_name = ''metadata_full''\<rparr>"
  from Cons.prems have mem: "cfg \<in> set indexes" and sub: "set cat \<subseteq> set indexes"
    by simp_all
  show ?case
  proof (cases "name cfg \<in> set existing")
    case True
    with Cons.prems have here: "?row \<in> set (index_rows sch)" by blast
    from Cons.IH[OF Cons.prems(1) sub Cons.prems(3),
        of "res\<lparr>skipped := skipped res @ [name cfg]\<rparr>"]
    obtain sch' res' where
      "create_loop False existing cat sch (res\<lparr>skipped := skipped res @ [name cfg]\<rparr>) = (sch', res')"
      "catalog_ready sch'" "errors res' = errors res"
      "set (index_rows sch) \<subseteq> set (index_rows sch')"
      "\<forall>c \<in> set cat. \<lparr>idx_name = name c, tbl_name = ''metadata_full''\<rparr> \<in> set (index_rows sch')"
      by auto
    with True here show ?thesis by auto
  next
    case False
    from create_step[OF Cons.prems(1) mem] obtain sch1 where
      run: "execute_create_index sch (sql cfg) = Inr sch1" and ready1: "catalog_ready sch1"
      and keep: "set (index_rows sch) \<subseteq> set (index_rows sch1)"
      and here: "?row \<in> set (index_rows sch1)"
      by blast
    from Cons.prems(3) keep
    have ex1: "\<forall>n \<in> set existing. \<lparr>idx_name = n, tbl_name = ''metadata_full''\<rparr> \<in> set (index_rows sch1)"
      by blast
    from Cons.IH[OF ready1 sub ex1, of "res\<lparr>created := created res @ [name cfg]\<rparr>"]
    obtain sch' res' where
      "create_loop False existing cat sch1 (res\<lparr>created := created res @ [name cfg]\<rparr>) = (sch', res')"
      "catalog_ready sch'" "errors res' = errors res"
      "set (index_rows sch1) \<subseteq> set (index_rows sch')"
      "\<forall>c \<in> set cat. \<lparr>idx_name = name c, tbl_name = ''metadata_full''\<rparr> \<in> set (index_rows sch')"
      by auto
    with False run keep here show ?thesis by auto
  qed
qed

lemma create_loop_skips:
  assumes "\<forall>cfg \<in> set cat. name cfg \<in> set existing"
  shows "create_loop False existing cat sch res = (sch, res\<lparr>skipped := skipped res @ map name cat\<rparr>)"
  using assms by (induction cat arbitrary: res) simp_all

lemma analyze_ready: "catalog_ready sch \<Longrightarrow> execute_analyze sch ''metadata_full'' = Inr ()"
  by (auto simp: catalog_ready_def table_ready_def execute_analyze_def split: option.splits)

text \<open>
  Claim C9, as the code has it. On a store that is ready for the catalog (the table
  \<^verbatim>\<open>metadata_full\<close> with the catalog's columns, no table named like a catalog index,
  and every index whose name is a catalog name up to the case of letters spelled as in
  the catalog and sitting on \<^verbatim>\<open>metadata_full\<close>), \<^verbatim>\<open>create_indexes\<close> without
  \<^verbatim>\<open>force\<close> returns with no errors, and a second run on the store it leaves reports
  every catalog entry as skipped, none as created and no errors, and changes nothing.
\<close>

theorem create_indexes_twice:
  assumes "catalog_ready sch"
  shows "\<exists>sch1 res1. create_indexes sch False = (sch1, Inr res1) \<and> errors res1 = [] \<and>
           create_indexes sch1 False
             = (sch1, Inr \<lparr>errors = [], created = [], skipped = map name indexes\<rparr>)"
proof -
  let ?existing = "check_existing_indexes sch"
  let ?empty = "\<lparr>errors = [], created = [], skipped = []\<rparr>"
  have "\<forall>n \<in> set ?existing. \<lparr>idx_name = n, tbl_name = ''metadata_full''\<rparr> \<in> set (index_rows sch)"
    by (simp add: check_existing_indexes_rows)
  from create_loop_first[OF assms subset_refl this, of ?empty]
  obtain sch1 res1 where loop1: "create_loop False ?existing indexes sch ?empty = (sch1, res1)"
    and ready1: "catalog_ready sch1" and err1: "errors res1 = []"
    and rows1: "\<forall>cfg \<in> set indexes.
        \<lparr>idx_name = name cfg, tbl_name = ''metadata_full''\<rparr> \<in> set (index_rows sch1)"
    by auto
  have first: "create_indexes sch False = (sch1, Inr res1)"
    by (simp add: create_indexes_def loop1 analyze_ready[OF ready1])
  have "\<forall>cfg \<in> set indexes. name cfg \<in> set (check_existing_indexes sch1)"
    using rows1 catalog_not_internal by (simp add: check_existing_indexes_rows list_all_iff)
  then have "create_loop False (check_existing_indexes sch1) indexes sch1 ?empty
      = (sch1, ?empty\<lparr>skipped := skipped ?empty @ map name indexes\<rparr>)"
    by (rule create_loop_skips)
  then have "create_indexes sch1 False
      = (sch1, Inr \<lparr>errors = [], created = [], skipped = map name indexes\<rparr>)"
    by (simp add: create_indexes_def analyze_ready[OF ready1])
  with first err1 show ?thesis by blast
qed

lemma catalog_ready_empty: "catalog_ready (dataset_schema [])"
  by code_simp

text \<open>
  Claim C9 speaks of every starting index state. When \<^verbatim>\<open>metadata_full\<close> has an index
  \<^verbatim>\<open>IDX_AUTHOR\<close>, the listing returns that spelling, which is not the catalog's
  \<^verbatim>\<open>idx_author\<close>, and \<^verbatim>\<open>CREATE INDEX IF NOT EXISTS idx_author\<close> does nothing because the
  store knows the name already: the second run reports \<^verbatim>\<open>idx_author\<close> as created again
  and skips only the other eighteen.
\<close>

theorem create_indexes_shadowed_counterexample:
  "snd (create_indexes (fst (create_indexes shadowed_index False)) False)
     = Inr \<lparr>errors = [], created = [''idx_author''], skipped = tl (map name indexes)\<rparr>"
  by code_simp

text \<open>
  The table without any index.
\<close>

theorem create_indexes_twice_witness:
  "catalog_ready (dataset_schema []) \<and>
   snd (create_indexes (fst (create_indexes (dataset_schema []) False)) False)
     = Inr \<lparr>errors = [], created = [], skipped = map name indexes\<rparr>"
  using create_indexes_twice[OF catalog_ready_empty] catalog_ready_empty by auto

end
